theory Spec2Isabelle
  imports Complex_Main "HOL-Library.Word" "HOL-Library.Sublist" "HOL-Library.AList"
begin

section \<open>Strings\<close>

text \<open>
  A JavaScript string is a sequence of UTF-16 code units, and \<open>length\<close> counts code
  units. Literals of the source are written \<open>js ''...''\<close>.
\<close>

type_synonym jsstring = "16 word list"

definition js :: "string \<Rightarrow> jsstring" where
  "js s = map of_char s"

text \<open>
  The code units that \<open>String.prototype.trim\<close> strips: WhiteSpace and LineTerminator
  of ECMAScript (TAB, LF, VT, FF, CR, SP, NBSP, U+1680, U+2000..U+200A, U+2028, U+2029,
  U+202F, U+205F, U+3000, U+FEFF).
\<close>

definition isWhiteSpace :: "16 word \<Rightarrow> bool" where
  "isWhiteSpace c =
     (c = 0x9 \<or> c = 0xA \<or> c = 0xB \<or> c = 0xC \<or> c = 0xD \<or> c = 0x20 \<or> c = 0xA0 \<or>
      c = 0x1680 \<or> (0x2000 \<le> c \<and> c \<le> 0x200A) \<or> c = 0x2028 \<or> c = 0x2029 \<or>
      c = 0x202F \<or> c = 0x205F \<or> c = 0x3000 \<or> c = 0xFEFF)"

definition trim :: "jsstring \<Rightarrow> jsstring" where
  "trim s = rev (dropWhile isWhiteSpace (rev (dropWhile isWhiteSpace s)))"

text \<open>Decimal digits of a natural number, and a number padded with zeros to a width.\<close>

definition digit :: "nat \<Rightarrow> 16 word" where
  "digit d = of_nat (48 + d)"

fun digits :: "nat \<Rightarrow> jsstring" where
  "digits n = (if n < 10 then [digit n] else digits (n div 10) @ [digit (n mod 10)])"

fun pad :: "nat \<Rightarrow> nat \<Rightarrow> jsstring" where
  "pad 0 n = []"
| "pad (Suc k) n = pad k (n div 10) @ [digit (n mod 10)]"

text \<open>
  \<open>String(n)\<close> for an integral Number below \<open>10^21\<close> in absolute value, which is
  what a template literal makes of \<open>Date.now()\<close>.
\<close>

definition Number_toString :: "int \<Rightarrow> jsstring" where
  "Number_toString n = (if n < 0 then js ''-'' @ digits (nat (- n)) else digits (nat n))"

section \<open>Dates\<close>

text \<open>
  A \<open>Date\<close> object holds a time value: a whole number of milliseconds since the epoch,
  at most \<open>8.64e15\<close> in absolute value, or NaN (an invalid date).
\<close>

datatype date = Date int | Invalid_Date

definition valid_date :: "date \<Rightarrow> bool" where
  "valid_date d = (case d of Date t \<Rightarrow> \<bar>t\<bar> \<le> 8640000000000000 | Invalid_Date \<Rightarrow> False)"

definition msPerDay :: int where
  "msPerDay = 86400000"

definition DaysInYear :: "int \<Rightarrow> int" where
  "DaysInYear y =
     (if y mod 4 \<noteq> 0 then 365 else if y mod 100 \<noteq> 0 then 366
      else if y mod 400 \<noteq> 0 then 365 else 366)"

definition DayFromYear :: "int \<Rightarrow> int" where
  "DayFromYear y =
     365 * (y - 1970) + (y - 1969) div 4 - (y - 1901) div 100 + (y - 1601) div 400"

text \<open>
  \<open>YearFromTime\<close>: the largest year whose first day is not after the given day. The
  search starts at a year that is not after the result and goes up.
\<close>

function year_up :: "int \<Rightarrow> int \<Rightarrow> int" where
  "year_up y d = (if DayFromYear (y + 1) \<le> d then year_up (y + 1) d else y)"
  by pat_completeness auto
termination
proof (relation "measure (\<lambda>(y, d). nat (d + 1 - DayFromYear (y + 1)))")
  show "wf (measure (\<lambda>(y, d). nat (d + 1 - DayFromYear (y + 1))))"
    by simp
next
  fix y d :: int
  assume le: "DayFromYear (y + 1) \<le> d"
  have a: "(y + 1 + 1 - 1969) div 4 \<ge> (y + 1 - 1969) div 4"
    by (rule zdiv_mono1) simp_all
  have b: "(y + 1 + 1 - 1601) div 400 \<ge> (y + 1 - 1601) div 400"
    by (rule zdiv_mono1) simp_all
  have c: "(y + 1 + 1 - 1901) div 100 \<le> (y + 1 - 1901) div 100 + 1"
    by (simp add: div_add1_eq)
  have lin: "p \<le> p' \<Longrightarrow> q \<le> q' \<Longrightarrow> r' \<le> r + 1 \<Longrightarrow>
      365 * (y + 1 - 1970) + p - r + q < 365 * (y + 1 + 1 - 1970) + p' - r' + q'"
    for p p' q q' r r' :: int
    by (simp add: algebra_simps)
  have "DayFromYear (y + 1) < DayFromYear (y + 1 + 1)"
    unfolding DayFromYear_def by (rule lin [OF a b c])
  with le show "((y + 1, d), (y, d)) \<in> measure (\<lambda>(y, d). nat (d + 1 - DayFromYear (y + 1)))"
    by simp
qed

definition YearFromDay :: "int \<Rightarrow> int" where
  "YearFromDay d = year_up (1970 + (if d < 0 then d div 365 else d div 366) - 1) d"

text \<open>
  The first day of month \<open>m\<close> (0 is January) within its year, and the month of a day
  of the year, as in the tables of \<open>MonthFromTime\<close>.
\<close>

definition MonthStart :: "bool \<Rightarrow> nat \<Rightarrow> int" where
  "MonthStart leap m =
     [0, 31, 59, 90, 120, 151, 181, 212, 243, 273, 304, 334] ! m
       + (if leap \<and> 2 \<le> m then 1 else 0)"

definition MonthFromDay :: "bool \<Rightarrow> int \<Rightarrow> nat" where
  "MonthFromDay leap dwy =
     (if dwy < MonthStart leap 1 then 0 else if dwy < MonthStart leap 2 then 1
      else if dwy < MonthStart leap 3 then 2 else if dwy < MonthStart leap 4 then 3
      else if dwy < MonthStart leap 5 then 4 else if dwy < MonthStart leap 6 then 5
      else if dwy < MonthStart leap 7 then 6 else if dwy < MonthStart leap 8 then 7
      else if dwy < MonthStart leap 9 then 8 else if dwy < MonthStart leap 10 then 9
      else if dwy < MonthStart leap 11 then 10 else 11)"

definition InLeapYear :: "int \<Rightarrow> bool" where
  "InLeapYear y = (DaysInYear y = 366)"

text \<open>
  \<open>MakeDate (MakeDay year month date) (MakeTime hour min sec ms)\<close> for a month in
  \<open>0..11\<close>.
\<close>

definition MakeDate :: "int \<Rightarrow> nat \<Rightarrow> nat \<Rightarrow> nat \<Rightarrow> nat \<Rightarrow> nat \<Rightarrow> nat \<Rightarrow> int" where
  "MakeDate y m dt h mi sec ms =
     (DayFromYear y + MonthStart (InLeapYear y) m + int dt - 1) * msPerDay
       + int h * 3600000 + int mi * 60000 + int sec * 1000 + int ms"

text \<open>
  \<open>Date.prototype.toISOString\<close> of a time value: \<open>YYYY-MM-DDTHH:mm:ss.sssZ\<close>, the
  year with a sign and six digits when it is outside \<open>0..9999\<close>.
\<close>

definition year_string :: "int \<Rightarrow> jsstring" where
  "year_string y =
     (if 0 \<le> y \<and> y \<le> 9999 then pad 4 (nat y)
      else (if y < 0 then js ''-'' else js ''+'') @ pad 6 (nat \<bar>y\<bar>))"

definition toISOString :: "int \<Rightarrow> jsstring" where
  "toISOString t =
     (let d = t div msPerDay; ms = nat (t mod msPerDay);
          y = YearFromDay d; dwy = d - DayFromYear y;
          m = MonthFromDay (InLeapYear y) dwy;
          dt = nat (dwy - MonthStart (InLeapYear y) m + 1)
      in year_string y @ js ''-'' @ pad 2 (m + 1) @ js ''-'' @ pad 2 dt @ js ''T''
           @ pad 2 (ms div 3600000) @ js '':'' @ pad 2 (ms div 60000 mod 60) @ js '':''
           @ pad 2 (ms div 1000 mod 60) @ js ''.'' @ pad 3 (ms mod 1000) @ js ''Z'')"

text \<open>Reading a string of decimal digits.\<close>

definition digit_value :: "16 word \<Rightarrow> nat option" where
  "digit_value c = (if 48 \<le> c \<and> c \<le> 57 then Some (unat c - 48) else None)"

fun read_digits :: "nat \<Rightarrow> jsstring \<Rightarrow> nat option" where
  "read_digits acc [] = Some acc"
| "read_digits acc (c # cs) =
     (case digit_value c of None \<Rightarrow> None | Some v \<Rightarrow> read_digits (10 * acc + v) cs)"

text \<open>
  \<open>Date.parse\<close> on the format that \<open>toISOString\<close> writes. The fields of
  \<open>-MM-DDTHH:mm:ss.sssZ\<close> are read at their fixed places, and a string is accepted
  only when it is the \<open>toISOString\<close> of the time value read from it. Every other
  string (other ISO forms, and the formats an engine accepts on its own account) gives
  \<open>None\<close> here: the model does not say what \<open>Date.parse\<close> makes of it.
\<close>

definition parse_fields :: "int \<Rightarrow> jsstring \<Rightarrow> jsstring \<Rightarrow> int option" where
  "parse_fields sign ys r =
     (if length r = 20 \<and> r ! 0 = 45 \<and> r ! 3 = 45 \<and> r ! 6 = 84 \<and> r ! 9 = 58
         \<and> r ! 12 = 58 \<and> r ! 15 = 46 \<and> r ! 19 = 90
      then
        (case (read_digits 0 ys, read_digits 0 (take 2 (drop 1 r)),
               read_digits 0 (take 2 (drop 4 r)), read_digits 0 (take 2 (drop 7 r)),
               read_digits 0 (take 2 (drop 10 r)), read_digits 0 (take 2 (drop 13 r)),
               read_digits 0 (take 3 (drop 16 r))) of
           (Some y, Some mo, Some dt, Some h, Some mi, Some sec, Some ms) \<Rightarrow>
             (if 1 \<le> mo \<and> mo \<le> 12
              then Some (MakeDate (sign * int y) (mo - 1) dt h mi sec ms) else None)
         | _ \<Rightarrow> None)
      else None)"

definition Date_parse :: "jsstring \<Rightarrow> int option" where
  "Date_parse s =
     (case (if length s = 24 then parse_fields 1 (take 4 s) (drop 4 s)
            else if length s = 27 \<and> s ! 0 = 43 then parse_fields 1 (take 6 (drop 1 s)) (drop 7 s)
            else if length s = 27 \<and> s ! 0 = 45 then parse_fields (- 1) (take 6 (drop 1 s)) (drop 7 s)
            else None) of
        None \<Rightarrow> None
      | Some t \<Rightarrow> (if \<bar>t\<bar> \<le> 8640000000000000 \<and> toISOString t = s then Some t else None))"

section \<open>The data model (types.ts)\<close>

text \<open>
  Modelled from the spec: the declarations of \<open>Todo\<close>, \<open>FilterType\<close> and
  \<open>TodoStats\<close> are in \<open>types.ts\<close>, which is not among the sources. Their fields are
  those of the spec's Task (\<open>id\<close>, \<open>text\<close>, \<open>completed\<close>, \<open>createdAt\<close>) and of the
  object literals in \<open>addTodo\<close> and \<open>getStats\<close>. The fields \<open>id\<close> and \<open>text\<close> carry a
  prime, and the count \<open>completed\<close> of the statistics is \<open>completed'\<close>.
\<close>

record todo =
  id' :: jsstring
  text' :: jsstring
  completed :: bool
  createdAt :: date

datatype FilterType = All | Active | Completed

record TodoStats =
  total :: nat
  active :: nat
  completed' :: nat

section \<open>JSON and the browser\<close>

text \<open>
  The value that \<open>JSON.parse\<close> returns. An object is the list of its properties in
  enumeration order, each name once. No operation reads the value of a number.
\<close>

datatype json =
    JNull
  | JBool bool
  | JNum rat
  | JStr jsstring
  | JArr "json list"
  | JObj "(jsstring \<times> json) list"

text \<open>
  A string kept in \<open>localStorage\<close>: the empty string, a JSON text (given by the value
  it denotes), or a non-empty string that is not a JSON text.
\<close>

datatype content = Empty_text | JSON_text json | Invalid_text

datatype js_error = SyntaxError | TypeError | DOMException

definition JSON_parse :: "content \<Rightarrow> js_error + json" where
  "JSON_parse c = (case c of JSON_text v \<Rightarrow> Inr v | _ \<Rightarrow> Inl SyntaxError)"

text \<open>
  What the program sees of the browser: the entry of \<open>localStorage\<close> under the key
  \<open>'todos'\<close>, whether \<open>getItem\<close> and \<open>setItem\<close> throw (storage disabled or full), the
  values given to \<open>setItem\<close> in every call so far (the persistence writes), and what
  was given to \<open>console.error\<close>.
\<close>

record browser =
  item :: "content option"
  getItem_throws :: bool
  setItem_throws :: bool
  setItem_calls :: "content list"
  console_error :: "js_error list"

definition getItem :: "browser \<Rightarrow> js_error + content option" where
  "getItem b = (if getItem_throws b then Inl DOMException else Inr (item b))"

text \<open>
  \<open>setItem\<close> returns the exception it throws, if any, and the browser after the call.
  A call that throws stores nothing.
\<close>

definition setItem :: "content \<Rightarrow> browser \<Rightarrow> js_error option \<times> browser" where
  "setItem c b =
     (let b' = b\<lparr>setItem_calls := setItem_calls b @ [c]\<rparr> in
      if setItem_throws b then (Some DOMException, b') else (None, b'\<lparr>item := Some c\<rparr>))"

section \<open>TodoManager\<close>

record manager =
  todos :: "todo list"
  currentFilter :: FilterType

text \<open>\<open>JSON.stringify(this.todos)\<close>: a \<open>Date\<close> is written by its \<open>toJSON\<close>.\<close>

definition Date_toJSON :: "date \<Rightarrow> json" where
  "Date_toJSON d = (case d of Date t \<Rightarrow> JStr (toISOString t) | Invalid_Date \<Rightarrow> JNull)"

definition todo_toJSON :: "todo \<Rightarrow> json" where
  "todo_toJSON t =
     JObj [(js ''id'', JStr (id' t)), (js ''text'', JStr (text' t)),
           (js ''completed'', JBool (completed t)), (js ''createdAt'', Date_toJSON (createdAt t))]"

definition JSON_stringify :: "todo list \<Rightarrow> content" where
  "JSON_stringify ts = JSON_text (JArr (map todo_toJSON ts))"

text \<open>\<open>saveToLocalStorage\<close>: an exception of \<open>setItem\<close> is caught and logged.\<close>

definition saveToLocalStorage :: "manager \<Rightarrow> browser \<Rightarrow> browser" where
  "saveToLocalStorage m b =
     (case setItem (JSON_stringify (todos m)) b of
        (None, b') \<Rightarrow> b'
      | (Some e, b') \<Rightarrow> b'\<lparr>console_error := console_error b' @ [e]\<rparr>)"

text \<open>
  What \<open>addTodo\<close> reads from its surroundings: \<open>Date.now()\<close> and
  \<open>Math.random().toString(36)\<close> in \<open>generateId\<close>, then the time of \<open>new Date()\<close>.
\<close>

record ambient =
  Date_now :: int
  Math_random_36 :: jsstring
  new_Date_now :: int

definition substr :: "jsstring \<Rightarrow> nat \<Rightarrow> nat \<Rightarrow> jsstring" where
  "substr s start len = take len (drop start s)"

definition generateId :: "ambient \<Rightarrow> jsstring" where
  "generateId a = Number_toString (Date_now a) @ js ''-'' @ substr (Math_random_36 a) 2 9"

definition addTodo :: "ambient \<Rightarrow> jsstring \<Rightarrow> manager \<times> browser \<Rightarrow> todo option \<times> manager \<times> browser" where
  "addTodo a txt = (\<lambda>(m, b).
     let trimmedText = trim txt in
     if length trimmedText = 0 then (None, m, b)
     else if length trimmedText > 200 then (None, m, b)
     else
       let newTodo = \<lparr>id' = generateId a, text' = trimmedText, completed = False,
                      createdAt = Date (new_Date_now a)\<rparr>;
           m' = m\<lparr>todos := todos m @ [newTodo]\<rparr>
       in (Some newTodo, m', saveToLocalStorage m' b))"

definition deleteTodo :: "jsstring \<Rightarrow> manager \<times> browser \<Rightarrow> bool \<times> manager \<times> browser" where
  "deleteTodo i = (\<lambda>(m, b).
     let initialLength = length (todos m);
         m' = m\<lparr>todos := filter (\<lambda>todo. id' todo \<noteq> i) (todos m)\<rparr>
     in if length (todos m') < initialLength then (True, m', saveToLocalStorage m' b)
        else (False, m', b))"

text \<open>
  \<open>toggleTodo\<close> changes the first task that \<open>find\<close> returns, in place: the array keeps
  its length and every other element.
\<close>

fun toggle_first :: "jsstring \<Rightarrow> todo list \<Rightarrow> todo list" where
  "toggle_first i [] = []"
| "toggle_first i (t # ts) =
     (if id' t = i then t\<lparr>completed := \<not> completed t\<rparr> # ts else t # toggle_first i ts)"

definition toggleTodo :: "jsstring \<Rightarrow> manager \<times> browser \<Rightarrow> bool \<times> manager \<times> browser" where
  "toggleTodo i = (\<lambda>(m, b).
     case find (\<lambda>t. id' t = i) (todos m) of
       Some todo \<Rightarrow>
         let m' = m\<lparr>todos := toggle_first i (todos m)\<rparr>
         in (True, m', saveToLocalStorage m' b)
     | None \<Rightarrow> (False, m, b))"

definition getTodos :: "FilterType option \<Rightarrow> manager \<Rightarrow> todo list" where
  "getTodos f m =
     (let filterType = (case f of Some g \<Rightarrow> g | None \<Rightarrow> currentFilter m) in
      case filterType of
        Active \<Rightarrow> filter (\<lambda>todo. \<not> completed todo) (todos m)
      | Completed \<Rightarrow> filter (\<lambda>todo. completed todo) (todos m)
      | All \<Rightarrow> todos m)"

definition getTodoById :: "jsstring \<Rightarrow> manager \<Rightarrow> todo option" where
  "getTodoById i m = find (\<lambda>todo. id' todo = i) (todos m)"

definition clearCompleted :: "manager \<times> browser \<Rightarrow> nat \<times> manager \<times> browser" where
  "clearCompleted = (\<lambda>(m, b).
     let initialLength = length (todos m);
         m' = m\<lparr>todos := filter (\<lambda>todo. \<not> completed todo) (todos m)\<rparr>;
         deletedCount = initialLength - length (todos m')
     in if deletedCount > 0 then (deletedCount, m', saveToLocalStorage m' b)
        else (deletedCount, m', b))"

definition getStats :: "manager \<Rightarrow> TodoStats" where
  "getStats m =
     \<lparr>total = length (todos m),
      active = length (filter (\<lambda>t. \<not> completed t) (todos m)),
      completed' = length (filter (\<lambda>t. completed t) (todos m))\<rparr>"

definition setFilter :: "FilterType \<Rightarrow> manager \<Rightarrow> manager" where
  "setFilter f m = m\<lparr>currentFilter := f\<rparr>"

definition getCurrentFilter :: "manager \<Rightarrow> FilterType" where
  "getCurrentFilter m = currentFilter m"

definition clearAll :: "manager \<times> browser \<Rightarrow> manager \<times> browser" where
  "clearAll = (\<lambda>(m, b). let m' = m\<lparr>todos := []\<rparr> in (m', saveToLocalStorage m' b))"

section \<open>Loading\<close>

text \<open>
  The objects that \<open>loadFromLocalStorage\<close> builds have whatever properties the stored
  record gives them. A property holds a parsed value, or the \<open>Date\<close> made by
  \<open>new Date(v)\<close> from a parsed value \<open>v\<close> or from \<open>undefined\<close> (\<open>None\<close>).
\<close>

datatype property = Value json | New_Date "json option"

type_synonym jsobj = "(jsstring \<times> property) list"

text \<open>
  The own enumerable properties that \<open>{...todo}\<close> copies: those of an object, the
  elements of an array and the code units of a string under their indices, none for
  a number, a boolean or \<open>null\<close>.
\<close>

definition spread :: "json \<Rightarrow> (jsstring \<times> json) list" where
  "spread v =
     (case v of
        JObj ps \<Rightarrow> ps
      | JArr xs \<Rightarrow> zip (map digits [0..<length xs]) xs
      | JStr s \<Rightarrow> zip (map digits [0..<length s]) (map (\<lambda>c. JStr [c]) s)
      | _ \<Rightarrow> [])"

text \<open>
  \<open>todo.createdAt\<close>: a TypeError on \<open>null\<close>, the property of an object, and
  \<open>undefined\<close> on anything else (an array or a string has indices and a length only).
\<close>

definition get_createdAt :: "json \<Rightarrow> js_error + json option" where
  "get_createdAt v =
     (case v of
        JNull \<Rightarrow> Inl TypeError
      | JObj ps \<Rightarrow> Inr (map_of ps (js ''createdAt''))
      | _ \<Rightarrow> Inr None)"

text \<open>
  \<open>new Date(v)\<close> converts an object or an array to a primitive first: \<open>valueOf\<close>, which
  for these gives the object itself or is a parsed value and no function, then
  \<open>toString\<close>. An object with a property \<open>toString\<close> of its own has a parsed value
  there, which cannot be called, and the conversion throws a TypeError; without it
  \<open>Object.prototype.toString\<close> answers. The \<open>toString\<close> of an array joins the strings
  of its elements, so it throws when the conversion of an element does. Nothing else in
  \<open>new Date(v)\<close> throws.
\<close>

fun ToPrimitive_throws :: "json \<Rightarrow> bool" where
  "ToPrimitive_throws (JObj ps) = (js ''toString'' \<in> set (map fst ps))"
| "ToPrimitive_throws (JArr xs) = (\<exists>x\<in>set xs. ToPrimitive_throws x)"
| "ToPrimitive_throws v = False"

definition new_Date_throws :: "json option \<Rightarrow> bool" where
  "new_Date_throws c = (case c of None \<Rightarrow> False | Some v \<Rightarrow> ToPrimitive_throws v)"

text \<open>
  The function given to \<open>map\<close>: \<open>{...todo, createdAt: new Date(todo.createdAt)}\<close>. A
  property that the spread has already made keeps its place and takes the new value.
\<close>

definition revive :: "json \<Rightarrow> js_error + jsobj" where
  "revive todo =
     (case get_createdAt todo of
        Inl e \<Rightarrow> Inl e
      | Inr c \<Rightarrow>
          if new_Date_throws c then Inl TypeError
          else Inr (AList.update (js ''createdAt'') (New_Date c)
                      (map (\<lambda>(k, v). (k, Value v)) (spread todo))))"

text \<open>
  An element whose \<open>createdAt\<close> is an object or an array that \<open>new Date\<close> cannot convert.
\<close>

definition unconvertible_createdAt :: "json \<Rightarrow> bool" where
  "unconvertible_createdAt x =
     (case x of
        JObj ps \<Rightarrow>
          (case map_of ps (js ''createdAt'') of
             Some v \<Rightarrow> ToPrimitive_throws v
           | None \<Rightarrow> False)
      | _ \<Rightarrow> False)"

fun map_throwing :: "('a \<Rightarrow> js_error + 'b) \<Rightarrow> 'a list \<Rightarrow> js_error + 'b list" where
  "map_throwing f [] = Inr []"
| "map_throwing f (x # xs) =
     (case f x of
        Inl e \<Rightarrow> Inl e
      | Inr y \<Rightarrow> (case map_throwing f xs of Inl e \<Rightarrow> Inl e | Inr ys \<Rightarrow> Inr (y # ys)))"

text \<open>\<open>parsed.map(f)\<close>: only an array has a \<open>map\<close> to call.\<close>

definition parsed_map :: "(json \<Rightarrow> js_error + 'b) \<Rightarrow> json \<Rightarrow> js_error + 'b list" where
  "parsed_map f parsed = (case parsed of JArr xs \<Rightarrow> map_throwing f xs | _ \<Rightarrow> Inl TypeError)"

text \<open>
  The \<open>try\<close> block of \<open>loadFromLocalStorage\<close>: the exception it throws, or the array
  assigned to \<open>this.todos\<close> (\<open>None\<close> when \<open>stored\<close> is falsy and nothing is assigned).
\<close>

definition load_try :: "browser \<Rightarrow> js_error + jsobj list option" where
  "load_try b =
     (case getItem b of
        Inl e \<Rightarrow> Inl e
      | Inr stored \<Rightarrow>
          (case stored of
             None \<Rightarrow> Inr None
           | Some Empty_text \<Rightarrow> Inr None
           | Some c \<Rightarrow>
               (case JSON_parse c of
                  Inl e \<Rightarrow> Inl e
                | Inr parsed \<Rightarrow>
                    (case parsed_map revive parsed of
                       Inl e \<Rightarrow> Inl e
                     | Inr objs \<Rightarrow> Inr (Some objs)))))"

text \<open>With the \<open>catch\<close>: the error is logged and \<open>this.todos\<close> becomes empty.\<close>

definition loadFromLocalStorage :: "browser \<Rightarrow> jsobj list option \<times> browser" where
  "loadFromLocalStorage b =
     (case load_try b of
        Inr r \<Rightarrow> (r, b)
      | Inl e \<Rightarrow> (Some [], b\<lparr>console_error := console_error b @ [e]\<rparr>))"

text \<open>
  The \<open>Date\<close> that \<open>new Date(v)\<close> makes: invalid from \<open>undefined\<close>, the epoch from
  \<open>null\<close>, the parsed time from a string that \<open>toISOString\<close> writes. For other values
  the result is \<open>None\<close>: the model does not say what the engine makes of them.
\<close>

definition new_Date :: "json option \<Rightarrow> date option" where
  "new_Date v =
     (case v of
        None \<Rightarrow> Some Invalid_Date
      | Some JNull \<Rightarrow> Some (Date 0)
      | Some (JStr s) \<Rightarrow> map_option Date (Date_parse s)
      | Some _ \<Rightarrow> None)"

text \<open>
  A loaded object is a \<open>Todo\<close> when it has the four properties of the declaration, in
  the order in which \<open>addTodo\<close> writes them, with values of the declared types.
\<close>

fun as_todo :: "jsobj \<Rightarrow> todo option" where
  "as_todo [(k1, Value (JStr i)), (k2, Value (JStr x)), (k3, Value (JBool c)), (k4, New_Date v)] =
     (if k1 = js ''id'' \<and> k2 = js ''text'' \<and> k3 = js ''completed'' \<and> k4 = js ''createdAt''
      then map_option (\<lambda>d. \<lparr>id' = i, text' = x, completed = c, createdAt = d\<rparr>) (new_Date v)
      else None)"
| "as_todo obj = None"

text \<open>
  A new \<open>TodoManager\<close>. The operations above are those of an instance whose array
  holds \<open>Todo\<close>s; an instance that has loaded anything else is kept with its objects.
\<close>

datatype TodoManager = Typed manager | Untyped "jsobj list"

definition new_TodoManager :: "browser \<Rightarrow> TodoManager \<times> browser" where
  "new_TodoManager b =
     (case loadFromLocalStorage b of
        (None, b') \<Rightarrow> (Typed \<lparr>todos = [], currentFilter = All\<rparr>, b')
      | (Some objs, b') \<Rightarrow>
          (case those (map as_todo objs) of
             Some ts \<Rightarrow> (Typed \<lparr>todos = ts, currentFilter = All\<rparr>, b')
           | None \<Rightarrow> (Untyped objs, b')))"

text \<open>The length of \<open>getTodos('all')\<close>, which copies \<open>this.todos\<close> whatever it holds.\<close>

definition all_length :: "TodoManager \<Rightarrow> nat" where
  "all_length inst =
     (case inst of Typed m \<Rightarrow> length (getTodos (Some All) m) | Untyped objs \<Rightarrow> length objs)"

section \<open>Sequences of operations\<close>

datatype command =
    Create ambient jsstring
  | Delete jsstring
  | Toggle jsstring
  | ClearCompleted
  | ClearAll
  | SetFilter FilterType

fun step :: "manager \<times> browser \<Rightarrow> command \<Rightarrow> manager \<times> browser" where
  "step s (Create a txt) = snd (addTodo a txt s)"
| "step s (Delete i) = snd (deleteTodo i s)"
| "step s (Toggle i) = snd (toggleTodo i s)"
| "step s ClearCompleted = snd (clearCompleted s)"
| "step s ClearAll = clearAll s"
| "step (m, b) (SetFilter f) = (setFilter f m, b)"

definition run :: "command list \<Rightarrow> manager \<times> browser \<Rightarrow> manager \<times> browser" where
  "run cs s = foldl step s cs"

section \<open>Example values\<close>

definition example_ambient :: ambient where
  "example_ambient =
     \<lparr>Date_now = 1700000000000, Math_random_36 = js ''0.4fzyo82mvyr'',
      new_Date_now = 1700000000000\<rparr>"

definition empty_manager :: manager where
  "empty_manager = \<lparr>todos = [], currentFilter = All\<rparr>"

definition empty_browser :: browser where
  "empty_browser =
     \<lparr>item = None, getItem_throws = False, setItem_throws = False, setItem_calls = [],
      console_error = []\<rparr>"

definition example_todo :: "string \<Rightarrow> bool \<Rightarrow> todo" where
  "example_todo i c =
     \<lparr>id' = js i, text' = js ''Buy milk'', completed = c, createdAt = Date 1700000000000\<rparr>"

definition example_manager :: manager where
  "example_manager =
     \<lparr>todos = [example_todo ''a'' False, example_todo ''b'' True, example_todo ''c'' False],
      currentFilter = All\<rparr>"

definition invalid_date_manager :: manager where
  "invalid_date_manager =
     \<lparr>todos = [\<lparr>id' = js ''a'', text' = js ''Buy milk'', completed = False,
                createdAt = Invalid_Date\<rparr>],
      currentFilter = All\<rparr>"

definition undated_record :: content where
  "undated_record =
     JSON_text (JArr [JObj [(js ''id'', JStr (js ''a'')), (js ''text'', JStr (js ''Buy milk'')),
                            (js ''completed'', JBool False)]])"

definition unconvertible_record :: content where
  "unconvertible_record =
     JSON_text (JArr [JObj [(js ''createdAt'', JObj [(js ''toString'', JNull)])]])"

definition untitled_record :: content where
  "untitled_record = JSON_text (JArr [JObj [(js ''text'', JStr (js ''Buy milk''))]])"

section \<open>Creating a task\<close>

lemma setItem_calls_save:
  "setItem_calls (saveToLocalStorage m b) = setItem_calls b @ [JSON_stringify (todos m)]"
  by (simp add: saveToLocalStorage_def setItem_def Let_def)

lemma trim_example: "trim (js ''  Buy milk '') = js ''Buy milk''"
  by (simp add: trim_def js_def isWhiteSpace_def)

text \<open>
  Claim C1. \<open>addTodo\<close> returns a task exactly when the trimmed text has between 1 and
  200 code units. The task returned has the trimmed text and is not completed, and
  the array afterwards is the array before with this task at its end. In the other
  case the result is \<open>null\<close> (\<open>None\<close>); \<open>addTodo\<close> has no exception to throw, the one of
  \<open>setItem\<close> being caught in \<open>saveToLocalStorage\<close>.
\<close>

theorem addTodo_accepts_trimmed_length:
  assumes "addTodo a txt (m, b) = (r, m', b')"
  shows "(r \<noteq> None \<longleftrightarrow> 1 \<le> length (trim txt) \<and> length (trim txt) \<le> 200) \<and>
         (\<forall>t. r = Some t \<longrightarrow>
            text' t = trim txt \<and> completed t = False \<and> todos m' = todos m @ [t])"
  using assms by (auto simp: addTodo_def Let_def Suc_le_eq split: if_splits)

theorem addTodo_accepts_trimmed_length_witness:
  "\<exists>t m' b'.
     addTodo example_ambient (js ''  Buy milk '') (empty_manager, empty_browser) = (Some t, m', b')
     \<and> text' t = js ''Buy milk'' \<and> completed t = False \<and> todos m' = todos empty_manager @ [t]"
proof -
  obtain r m' b' where
    eq: "addTodo example_ambient (js ''  Buy milk '') (empty_manager, empty_browser) = (r, m', b')"
    by (cases "addTodo example_ambient (js ''  Buy milk '') (empty_manager, empty_browser)")
  have len: "1 \<le> length (trim (js ''  Buy milk '')) \<and> length (trim (js ''  Buy milk '')) \<le> 200"
    by (simp add: trim_example) (simp add: js_def)
  from addTodo_accepts_trimmed_length [OF eq] len obtain t where "r = Some t"
    by auto
  with addTodo_accepts_trimmed_length [OF eq] eq show ?thesis
    by (auto simp: trim_example)
qed

text \<open>
  Claim C4. \<open>addTodo\<close> rejects exactly the texts whose trimmed length is 0 or above 200.
  When it rejects, the manager and the browser are as before: the array is unchanged
  and \<open>setItem\<close> has not been called. When it accepts, \<open>setItem\<close> has been called once
  more, with the new array.
\<close>

theorem addTodo_rejection_writes_nothing:
  assumes "addTodo a txt (m, b) = (r, m', b')"
  shows "(r = None \<longleftrightarrow> length (trim txt) = 0 \<or> 200 < length (trim txt)) \<and>
         (r = None \<longrightarrow> m' = m \<and> b' = b) \<and>
         (r \<noteq> None \<longrightarrow> setItem_calls b' = setItem_calls b @ [JSON_stringify (todos m')])"
  using assms by (auto simp: addTodo_def Let_def setItem_calls_save split: if_splits)

theorem addTodo_rejection_writes_nothing_witness:
  "addTodo example_ambient (js ''   '') (empty_manager, empty_browser)
     = (None, empty_manager, empty_browser)
   \<and> (\<exists>t m' b'.
        addTodo example_ambient (js ''  Buy milk '') (empty_manager, empty_browser) = (Some t, m', b')
        \<and> setItem_calls b' = [JSON_stringify (todos m')])"
proof -
  obtain r m' b' where
    eq: "addTodo example_ambient (js ''   '') (empty_manager, empty_browser) = (r, m', b')"
    by (cases "addTodo example_ambient (js ''   '') (empty_manager, empty_browser)")
  have "length (trim (js ''   '')) = 0"
    by (simp add: trim_def js_def isWhiteSpace_def)
  with addTodo_rejection_writes_nothing [OF eq] eq have 1:
    "addTodo example_ambient (js ''   '') (empty_manager, empty_browser)
       = (None, empty_manager, empty_browser)"
    by simp
  obtain r2 m2 b2 where
    eq2: "addTodo example_ambient (js ''  Buy milk '') (empty_manager, empty_browser) = (r2, m2, b2)"
    by (cases "addTodo example_ambient (js ''  Buy milk '') (empty_manager, empty_browser)")
  have "\<not> (length (trim (js ''  Buy milk '')) = 0 \<or> 200 < length (trim (js ''  Buy milk '')))"
    by (simp add: trim_example) (simp add: js_def)
  with addTodo_rejection_writes_nothing [OF eq2] eq2 have 2:
    "\<exists>t m' b'.
        addTodo example_ambient (js ''  Buy milk '') (empty_manager, empty_browser) = (Some t, m', b')
        \<and> setItem_calls b' = [JSON_stringify (todos m')]"
    by (auto simp: empty_browser_def)
  from 1 2 show ?thesis ..
qed

section \<open>Unknown ids\<close>

lemma filter_id_neq: "i \<notin> id' ` set ts \<Longrightarrow> filter (\<lambda>todo. id' todo \<noteq> i) ts = ts"
  by (induction ts) auto

lemma find_id_None: "i \<notin> id' ` set ts \<Longrightarrow> find (\<lambda>t. id' t = i) ts = None"
  by (induction ts) auto

text \<open>
  Claim C7. For an id that no task of the array has, \<open>deleteTodo\<close> and \<open>toggleTodo\<close>
  return false and leave the manager and the browser as they were: the same array,
  and no call of \<open>setItem\<close>.
\<close>

theorem unknown_id_is_noop:
  assumes "i \<notin> id' ` set (todos m)"
  shows "deleteTodo i (m, b) = (False, m, b) \<and> toggleTodo i (m, b) = (False, m, b)"
  using assms by (simp add: deleteTodo_def toggleTodo_def Let_def filter_id_neq find_id_None)

theorem unknown_id_is_noop_witness:
  "js ''z'' \<notin> id' ` set (todos example_manager) \<and>
   deleteTodo (js ''z'') (example_manager, empty_browser) = (False, example_manager, empty_browser) \<and>
   toggleTodo (js ''z'') (example_manager, empty_browser) = (False, example_manager, empty_browser)"
proof -
  have h: "js ''z'' \<notin> id' ` set (todos example_manager)"
    by (simp add: example_manager_def example_todo_def js_def)
  from h unknown_id_is_noop [OF h] show ?thesis by blast
qed

section \<open>Clearing the completed tasks\<close>

text \<open>
  Claim C8. \<open>clearCompleted\<close> keeps the tasks that are not completed, in their order,
  and nothing else; it returns the number of completed tasks there were. \<open>setItem\<close> is
  called exactly when this number is positive. When it is zero the browser, and with
  it the stored record, is what it was.
\<close>

theorem clearCompleted_removes_completed:
  assumes "clearCompleted (m, b) = (n, m', b')"
  shows "todos m' = filter (\<lambda>t. \<not> completed t) (todos m) \<and>
         currentFilter m' = currentFilter m \<and>
         n = length (filter completed (todos m)) \<and>
         (0 < n \<longleftrightarrow> setItem_calls b' \<noteq> setItem_calls b) \<and>
         (0 < n \<longrightarrow> b' = saveToLocalStorage m' b) \<and>
         (n = 0 \<longrightarrow> b' = b)"
proof -
  have len: "length (todos m) - length (filter (\<lambda>t. \<not> completed t) (todos m))
    = length (filter completed (todos m))"
    using sum_length_filter_compl [of completed "todos m"] by simp
  show ?thesis
    using assms len
    by (auto simp: clearCompleted_def Let_def setItem_calls_save split: if_splits)
qed

theorem clearCompleted_removes_completed_witness:
  "(\<exists>m' b'. clearCompleted (example_manager, empty_browser) = (1, m', b')
      \<and> todos m' = [example_todo ''a'' False, example_todo ''c'' False]
      \<and> b' = saveToLocalStorage m' empty_browser)
   \<and> clearCompleted (empty_manager, empty_browser) = (0, empty_manager, empty_browser)"
proof -
  obtain n m' b' where eq: "clearCompleted (example_manager, empty_browser) = (n, m', b')"
    by (cases "clearCompleted (example_manager, empty_browser)")
  have n: "length (filter completed (todos example_manager)) = 1"
    by (simp add: example_manager_def example_todo_def)
  have ts: "filter (\<lambda>t. \<not> completed t) (todos example_manager)
      = [example_todo ''a'' False, example_todo ''c'' False]"
    by (simp add: example_manager_def example_todo_def)
  from clearCompleted_removes_completed [OF eq] n ts eq have 1:
    "\<exists>m' b'. clearCompleted (example_manager, empty_browser) = (1, m', b')
      \<and> todos m' = [example_todo ''a'' False, example_todo ''c'' False]
      \<and> b' = saveToLocalStorage m' empty_browser"
    by simp
  obtain n0 m0 b0 where eq0: "clearCompleted (empty_manager, empty_browser) = (n0, m0, b0)"
    by (cases "clearCompleted (empty_manager, empty_browser)")
  have "m0 = empty_manager"
    using clearCompleted_removes_completed [OF eq0] by (simp add: empty_manager_def)
  with clearCompleted_removes_completed [OF eq0] eq0 have 2:
    "clearCompleted (empty_manager, empty_browser) = (0, empty_manager, empty_browser)"
    by (simp add: empty_manager_def)
  from 1 2 show ?thesis ..
qed

section \<open>Filters\<close>

text \<open>
  Claim C9. In every state the list for \<open>'all'\<close> is the array of the store, in its
  order; the active list is this array restricted to the tasks that are not
  completed and the completed list its restriction to those that are, both in the
  order of the array. So as sets their union is the set of all tasks of the store and
  they have no task in common. Without a filter given, the current filter is used.
\<close>

theorem getTodos_partition:
  "getTodos (Some All) m = todos m \<and>
   getTodos (Some Active) m = filter (\<lambda>t. \<not> completed t) (todos m) \<and>
   getTodos (Some Completed) m = filter (\<lambda>t. completed t) (todos m) \<and>
   getTodos None m = getTodos (Some (currentFilter m)) m \<and>
   set (getTodos (Some Active) m) \<union> set (getTodos (Some Completed) m)
     = set (getTodos (Some All) m) \<and>
   set (getTodos (Some Active) m) \<inter> set (getTodos (Some Completed) m) = {} \<and>
   getTodos (Some Active) m = filter (\<lambda>t. \<not> completed t) (getTodos (Some All) m) \<and>
   getTodos (Some Completed) m = filter (\<lambda>t. completed t) (getTodos (Some All) m) \<and>
   subseq (getTodos (Some Active) m) (getTodos (Some All) m) \<and>
   subseq (getTodos (Some Completed) m) (getTodos (Some All) m)"
  by (auto simp: getTodos_def)

section \<open>Toggling\<close>

lemma toggle_first_update:
  "i \<in> id' ` set ts \<Longrightarrow>
   \<exists>k<length ts. id' (ts ! k) = i \<and> (\<forall>j<k. id' (ts ! j) \<noteq> i) \<and>
      toggle_first i ts = ts[k := (ts ! k)\<lparr>completed := \<not> completed (ts ! k)\<rparr>]"
proof (induction ts)
  case Nil
  then show ?case by simp
next
  case (Cons t ts)
  show ?case
  proof (cases "id' t = i")
    case True
    then show ?thesis by (intro exI [of _ 0]) simp
  next
    case False
    with Cons.prems have "i \<in> id' ` set ts" by auto
    from Cons.IH [OF this] obtain k where k: "k < length ts" "id' (ts ! k) = i"
      "\<forall>j<k. id' (ts ! j) \<noteq> i"
      "toggle_first i ts = ts[k := (ts ! k)\<lparr>completed := \<not> completed (ts ! k)\<rparr>]"
      by blast
    show ?thesis
    proof (intro exI [of _ "Suc k"] conjI allI impI)
      fix j assume "j < Suc k"
      then show "id' ((t # ts) ! j) \<noteq> i" using False k(3) by (cases j) auto
    qed (use False k in auto)
  qed
qed

lemma find_id_Some: "i \<in> id' ` set ts \<Longrightarrow> \<exists>t. find (\<lambda>t. id' t = i) ts = Some t"
  by (induction ts) auto

text \<open>
  Claim C10. When some task has the id, \<open>toggleTodo\<close> returns true and the new array is
  the old one with one element replaced: the first task with this id, whose
  \<open>completed\<close> is negated and whose other fields are kept. So the length, the order,
  every other task and the current filter are as before.
\<close>

theorem toggleTodo_changes_only_completed:
  assumes "i \<in> id' ` set (todos m)"
  shows "\<exists>k<length (todos m). id' (todos m ! k) = i \<and> (\<forall>j<k. id' (todos m ! j) \<noteq> i) \<and>
     toggleTodo i (m, b) =
       (True,
        m\<lparr>todos := (todos m)[k := (todos m ! k)\<lparr>completed := \<not> completed (todos m ! k)\<rparr>]\<rparr>,
        saveToLocalStorage
          (m\<lparr>todos := (todos m)[k := (todos m ! k)\<lparr>completed := \<not> completed (todos m ! k)\<rparr>]\<rparr>)
          b)"
proof -
  from toggle_first_update [OF assms] obtain k where k: "k < length (todos m)"
    "id' (todos m ! k) = i" "\<forall>j<k. id' (todos m ! j) \<noteq> i"
    "toggle_first i (todos m)
       = (todos m)[k := (todos m ! k)\<lparr>completed := \<not> completed (todos m ! k)\<rparr>]"
    by blast
  from find_id_Some [OF assms] obtain t where "find (\<lambda>t. id' t = i) (todos m) = Some t" ..
  then have "toggleTodo i (m, b) =
       (True, m\<lparr>todos := toggle_first i (todos m)\<rparr>,
        saveToLocalStorage (m\<lparr>todos := toggle_first i (todos m)\<rparr>) b)"
    by (simp add: toggleTodo_def Let_def)
  with k show ?thesis by auto
qed

theorem toggleTodo_changes_only_completed_witness:
  "js ''b'' \<in> id' ` set (todos example_manager) \<and>
   fst (snd (toggleTodo (js ''b'') (example_manager, empty_browser)))
     = \<lparr>todos = [example_todo ''a'' False, example_todo ''b'' False, example_todo ''c'' False],
        currentFilter = All\<rparr>"
proof -
  have h: "js ''b'' \<in> id' ` set (todos example_manager)"
    by (simp add: example_manager_def example_todo_def)
  have ids: "id' (todos example_manager ! k) = js ''b'' \<Longrightarrow> k < length (todos example_manager)
      \<Longrightarrow> k = 1" for k
    by (cases k; cases "k - 1") (simp_all add: example_manager_def example_todo_def js_def)
  from toggleTodo_changes_only_completed [OF h, of empty_browser] obtain k where
    k: "k < length (todos example_manager)" "id' (todos example_manager ! k) = js ''b''"
    and eq: "fst (snd (toggleTodo (js ''b'') (example_manager, empty_browser))) =
       example_manager\<lparr>todos := (todos example_manager)[k := (todos example_manager ! k)
          \<lparr>completed := \<not> completed (todos example_manager ! k)\<rparr>]\<rparr>"
    by auto
  from ids [OF k(2) k(1)] have "k = 1" .
  with eq h show ?thesis
    by (simp add: example_manager_def example_todo_def)
qed

section \<open>Statistics\<close>

text \<open>
  Claim C3. After any sequence of operations from any state, the statistics count
  the tasks: \<open>total\<close> is the number of tasks, \<open>active\<close> the number of places of the
  array whose task is not completed, \<open>completed\<close> the number of those whose task is,
  and \<open>active + completed = total\<close>. With no task all three are zero.
\<close>

theorem getStats_counts_add_up:
  "active (getStats (fst (run cs s))) + completed' (getStats (fst (run cs s)))
     = total (getStats (fst (run cs s))) \<and>
   total (getStats (fst (run cs s))) = length (todos (fst (run cs s))) \<and>
   active (getStats (fst (run cs s)))
     = card {k. k < length (todos (fst (run cs s))) \<and> \<not> completed (todos (fst (run cs s)) ! k)} \<and>
   completed' (getStats (fst (run cs s)))
     = card {k. k < length (todos (fst (run cs s))) \<and> completed (todos (fst (run cs s)) ! k)} \<and>
   getStats \<lparr>todos = [], currentFilter = f\<rparr> = \<lparr>total = 0, active = 0, completed' = 0\<rparr>"
proof -
  have "length (filter (\<lambda>t. \<not> completed t) ts) + length (filter completed ts) = length ts"
    for ts :: "todo list"
    using sum_length_filter_compl [of completed ts] by simp
  then show ?thesis
    by (simp add: getStats_def length_filter_conv_card)
qed

section \<open>Ids\<close>

lemma Number_toString_example: "Number_toString 1700000000000 = js ''1700000000000''"
  by (simp add: Number_toString_def digit_def js_def)

lemma generateId_example: "generateId example_ambient = js ''1700000000000-4fzyo82mv''"
  by (simp add: generateId_def example_ambient_def Number_toString_example substr_def)
    (simp add: js_def)

lemma trim_Buy_milk: "trim (js ''Buy milk'') = js ''Buy milk''"
  by (simp add: trim_def js_def isWhiteSpace_def)

lemma trim_Pay_bills: "trim (js ''Pay bills'') = js ''Pay bills''"
  by (simp add: trim_def js_def isWhiteSpace_def)

text \<open>
  Claim C2. The id is made of \<open>Date.now()\<close> and nine digits of \<open>Math.random()\<close>, and
  nothing compares it with the ids in use. Two calls of \<open>addTodo\<close> in one millisecond
  that draw the same digits give two tasks with one id.
\<close>

theorem generateId_repeats_in_one_millisecond:
  "map id' (todos (fst (run [Create example_ambient (js ''Buy milk''),
                             Create example_ambient (js ''Pay bills'')]
                          (empty_manager, empty_browser))))
     = [js ''1700000000000-4fzyo82mv'', js ''1700000000000-4fzyo82mv'']
   \<and> \<not> distinct (map id' (todos (fst (run [Create example_ambient (js ''Buy milk''),
                             Create example_ambient (js ''Pay bills'')]
                          (empty_manager, empty_browser)))))"
proof -
  have l1: "length (js ''Buy milk'') = 8" "length (js ''Pay bills'') = 9"
    by (simp_all add: js_def)
  have l2: "js ''Buy milk'' \<noteq> []" "js ''Pay bills'' \<noteq> []"
    by (simp_all add: js_def)
  show ?thesis
    by (simp add: run_def addTodo_def Let_def trim_Buy_milk trim_Pay_bills l1 l2
        generateId_example empty_manager_def)
qed

section \<open>Writing and reading a date\<close>

lemma digit_value_digit: "d < 10 \<Longrightarrow> digit_value (digit d) = Some d"
proof -
  assume "d < 10"
  then have "d \<in> {0, 1, 2, 3, 4, 5, 6, 7, 8, 9}" by auto
  then show ?thesis by (auto simp: digit_value_def digit_def)
qed

lemma read_digits_snoc:
  "read_digits acc (cs @ [c]) =
     (case read_digits acc cs of None \<Rightarrow> None
      | Some v \<Rightarrow> (case digit_value c of None \<Rightarrow> None | Some d \<Rightarrow> Some (10 * v + d)))"
  by (induction cs arbitrary: acc) (auto split: option.splits)

lemma read_digits_pad: "read_digits 0 (pad k n) = Some (n mod 10 ^ k)"
proof (induction k arbitrary: n)
  case 0
  then show ?case by simp
next
  case (Suc k)
  have "10 * (n div 10 mod 10 ^ k) + n mod 10 = n mod (10 * 10 ^ k)"
    by (simp add: mod_mult2_eq)
  then show ?case
    by (simp add: read_digits_snoc Suc digit_value_digit)
qed

lemma length_pad: "length (pad k n) = k"
  by (induction k arbitrary: n) auto

lemma time_fields:
  fixes ms :: nat
  shows "(ms div 3600000) * 3600000 + (ms div 60000 mod 60) * 60000 + (ms div 1000 mod 60) * 1000
     + ms mod 1000 = ms"
proof -
  have a: "ms div 3600000 = ms div 60000 div 60" by (simp add: div_mult2_eq)
  have b: "ms div 60000 = ms div 1000 div 60" by (simp add: div_mult2_eq)
  have c: "ms div 60000 = 60 * (ms div 60000 div 60) + ms div 60000 mod 60" by simp
  have d: "ms div 1000 = 60 * (ms div 1000 div 60) + ms div 1000 mod 60" by simp
  have e: "ms = 1000 * (ms div 1000) + ms mod 1000" by simp
  show ?thesis using a b c d e by linarith
qed

lemma div_step:
  fixes a k :: int
  assumes k: "0 < k"
  shows "(a + 1) div k = a div k + (if (a + 1) mod k = 0 then 1 else 0)"
proof -
  define q where "q = a div k"
  define r where "r = a mod k"
  have a: "a + 1 = (r + 1) + k * q" by (simp add: q_def r_def)
  have r: "0 \<le> r" "r < k" using k by (simp_all add: r_def)
  show ?thesis
  proof (cases "r + 1 < k")
    case True
    have "((r + 1) + k * q) div k = q" "((r + 1) + k * q) mod k = r + 1"
      using True r k by (simp_all add: div_pos_pos_trivial mod_pos_pos_trivial)
    then have "(a + 1) div k = q" "(a + 1) mod k = r + 1"
      unfolding a by blast+
    then show ?thesis using r by (simp add: q_def)
  next
    case False
    with r have "r + 1 = k" by simp
    then have "a + 1 = k * (q + 1)" unfolding a by (simp add: algebra_simps)
    then have "(a + 1) div k = q + 1" "(a + 1) mod k = 0"
      using k by simp_all
    then show ?thesis by (simp add: q_def)
  qed
qed

lemma DayFromYear_Suc: "DayFromYear (y + 1) = DayFromYear y + DaysInYear y"
proof -
  have m4: "(y - 1969 + 1) mod 4 = 0 \<longleftrightarrow> y mod 4 = 0"
  proof -
    have "y - 1969 + 1 = y + 4 * (- 492)" by simp
    then show ?thesis by (simp only: mod_mult_self2)
  qed
  have m100: "(y - 1901 + 1) mod 100 = 0 \<longleftrightarrow> y mod 100 = 0"
  proof -
    have "y - 1901 + 1 = y + 100 * (- 19)" by simp
    then show ?thesis by (simp only: mod_mult_self2)
  qed
  have m400: "(y - 1601 + 1) mod 400 = 0 \<longleftrightarrow> y mod 400 = 0"
  proof -
    have "y - 1601 + 1 = y + 400 * (- 4)" by simp
    then show ?thesis by (simp only: mod_mult_self2)
  qed
  have a: "(y - 1969 + 1) div 4 = (y - 1969) div 4 + (if y mod 4 = 0 then 1 else 0)"
    using div_step [of 4 "y - 1969"] m4 by simp
  have b: "(y - 1901 + 1) div 100 = (y - 1901) div 100 + (if y mod 100 = 0 then 1 else 0)"
    using div_step [of 100 "y - 1901"] m100 by simp
  have c: "(y - 1601 + 1) div 400 = (y - 1601) div 400 + (if y mod 400 = 0 then 1 else 0)"
    using div_step [of 400 "y - 1601"] m400 by simp
  have d: "y mod 100 = 0" if "y mod 400 = 0"
  proof -
    from that have "400 dvd y" by (simp add: dvd_eq_mod_eq_0)
    moreover have "(100::int) dvd 400" by simp
    ultimately have "100 dvd y" by (rule dvd_trans [rotated])
    then show ?thesis by simp
  qed
  have d': "y mod 4 = 0" if "y mod 100 = 0"
  proof -
    from that have "100 dvd y" by (simp add: dvd_eq_mod_eq_0)
    moreover have "(4::int) dvd 100" by simp
    ultimately have "4 dvd y" by (rule dvd_trans [rotated])
    then show ?thesis by simp
  qed
  have e: "y + 1 - 1969 = y - 1969 + 1" "y + 1 - 1901 = y - 1901 + 1" "y + 1 - 1601 = y - 1601 + 1"
    by simp_all
  show ?thesis
    unfolding DayFromYear_def DaysInYear_def e a b c using d d' by auto
qed

lemma year_up_bounds:
  "DayFromYear y \<le> d \<Longrightarrow> DayFromYear (year_up y d) \<le> d \<and> d < DayFromYear (year_up y d + 1)"
proof (induction y d rule: year_up.induct)
  case (1 y d)
  show ?case
  proof (cases "DayFromYear (y + 1) \<le> d")
    case True
    from "1.IH" [OF True True] show ?thesis
      by (subst (1 2) year_up.simps) (simp add: True)
  next
    case False
    with "1.prems" show ?thesis
      by (subst (1 2) year_up.simps) simp
  qed
qed

lemma div_bounds:
  fixes a k :: int
  assumes "0 < k"
  shows "k * (a div k) \<le> a" "a < k * (a div k) + k"
proof -
  have "a = k * (a div k) + a mod k" by simp
  moreover have "0 \<le> a mod k" "a mod k < k" using assms by simp_all
  ultimately show "k * (a div k) \<le> a" "a < k * (a div k) + k" by linarith+
qed

lemma year_start_ok:
  "DayFromYear (1970 + (if d < 0 then d div 365 else d div 366) - 1) \<le> d"
proof (cases "d < 0")
  case True
  define k where "k = d div 365"
  have k: "365 * k \<le> d" "k < 0"
    using div_bounds [of 365 d] True by (simp_all add: k_def div_neg_pos_less0)
  have "DayFromYear (1970 + k - 1)
      = 365 * (k - 1) + k div 4 - (k + 68) div 100 + (k + 368) div 400"
    by (simp add: DayFromYear_def algebra_simps)
  moreover note div_bounds [of 4 k] div_bounds [of 100 "k + 68"] div_bounds [of 400 "k + 368"]
  ultimately have "DayFromYear (1970 + k - 1) \<le> d" using k by simp
  with True show ?thesis by (simp add: k_def)
next
  case False
  define k where "k = d div 366"
  have k: "366 * k \<le> d" "0 \<le> k"
    using div_bounds [of 366 d] False by (simp_all add: k_def pos_imp_zdiv_nonneg_iff)
  have "DayFromYear (1970 + k - 1)
      = 365 * (k - 1) + k div 4 - (k + 68) div 100 + (k + 368) div 400"
    by (simp add: DayFromYear_def algebra_simps)
  moreover note div_bounds [of 4 k] div_bounds [of 100 "k + 68"] div_bounds [of 400 "k + 368"]
  ultimately have "DayFromYear (1970 + k - 1) \<le> d" using k by simp
  with False show ?thesis by (simp add: k_def)
qed

lemma YearFromDay_bounds:
  "DayFromYear (YearFromDay d) \<le> d" "d < DayFromYear (YearFromDay d) + DaysInYear (YearFromDay d)"
  using year_up_bounds [OF year_start_ok, of d]
  by (simp_all add: YearFromDay_def DayFromYear_Suc)

lemma YearFromDay_range:
  assumes "\<bar>d\<bar> \<le> 100000000"
  shows "- 1000000 < YearFromDay d" "YearFromDay d < 1000000"
proof -
  define y where "y = YearFromDay d"
  have b: "DayFromYear y \<le> d" "d < DayFromYear (y + 1)"
    using YearFromDay_bounds [of d] by (simp_all add: y_def DayFromYear_Suc)
  note f = div_bounds [of 4 "y - 1969"] div_bounds [of 100 "y - 1901"] div_bounds [of 400 "y - 1601"]
  note g = div_bounds [of 4 "y + 1 - 1969"] div_bounds [of 100 "y + 1 - 1901"]
    div_bounds [of 400 "y + 1 - 1601"]
  have "y < 1000000"
  proof (rule ccontr)
    assume "\<not> y < 1000000"
    then have "100000000 < DayFromYear y" unfolding DayFromYear_def using f by simp
    with b assms show False by simp
  qed
  moreover have "- 1000000 < y"
  proof (rule ccontr)
    assume "\<not> - 1000000 < y"
    then have "DayFromYear (y + 1) < - 100000000" unfolding DayFromYear_def using g by simp
    with b assms show False by simp
  qed
  ultimately show "- 1000000 < YearFromDay d" "YearFromDay d < 1000000"
    by (simp_all add: y_def)
qed

lemma month_table:
  assumes "0 \<le> w" "w < (if leap then 366 else 365)"
  shows "MonthFromDay leap w < 12"
    and "MonthStart leap (MonthFromDay leap w) \<le> w"
    and "w - MonthStart leap (MonthFromDay leap w) + 1 < 100"
  using assms by (auto simp: MonthFromDay_def MonthStart_def)

lemma parse_fields_tail:
  assumes "read_digits 0 ys = Some y" "m < 12" "dt < 100" "h < 100" "mi < 100" "sec < 100" "ms < 1000"
  shows "parse_fields sg ys
           (js ''-'' @ pad 2 (m + 1) @ js ''-'' @ pad 2 dt @ js ''T'' @ pad 2 h @ js '':''
              @ pad 2 mi @ js '':'' @ pad 2 sec @ js ''.'' @ pad 3 ms @ js ''Z'')
         = Some (MakeDate (sg * int y) m dt h mi sec ms)"
  using assms
  by (simp add: parse_fields_def js_def length_pad nth_append read_digits_pad)

text \<open>\<open>Date.parse\<close> reads back the time value of every string that \<open>toISOString\<close> writes.\<close>

lemma Date_parse_toISOString:
  assumes t: "\<bar>t\<bar> \<le> 8640000000000000"
  shows "Date_parse (toISOString t) = Some t"
proof -
  define d where "d = t div msPerDay"
  define ms where "ms = nat (t mod msPerDay)"
  define y where "y = YearFromDay d"
  define w where "w = d - DayFromYear y"
  define m where "m = MonthFromDay (InLeapYear y) w"
  define dt where "dt = nat (w - MonthStart (InLeapYear y) m + 1)"
  define tail where "tail = js ''-'' @ pad 2 (m + 1) @ js ''-'' @ pad 2 dt @ js ''T''
       @ pad 2 (ms div 3600000) @ js '':'' @ pad 2 (ms div 60000 mod 60) @ js '':''
       @ pad 2 (ms div 1000 mod 60) @ js ''.'' @ pad 3 (ms mod 1000) @ js ''Z''"
  have iso: "toISOString t = year_string y @ tail"
    by (simp add: toISOString_def Let_def d_def ms_def y_def w_def m_def dt_def tail_def)
  have len_tail: "length tail = 20"
    by (simp add: tail_def length_pad js_def)
  have tdm: "t = d * msPerDay + int ms" "ms < 86400000"
    by (simp_all add: d_def ms_def msPerDay_def)
  have d: "\<bar>d\<bar> \<le> 100000000"
    using t tdm by (simp add: msPerDay_def)
  have w: "0 \<le> w" "w < (if InLeapYear y then 366 else 365)"
    using YearFromDay_bounds [of d]
    by (auto simp: w_def y_def InLeapYear_def DaysInYear_def split: if_splits)
  note mt = month_table [OF w, folded m_def]
  have dt: "int dt = w - MonthStart (InLeapYear y) m + 1" "dt < 100"
    using mt by (simp_all add: dt_def)
  have fields: "ms div 3600000 < 100" "ms div 60000 mod 60 < 100" "ms div 1000 mod 60 < 100"
    "ms mod 1000 < 1000"
    using tdm(2) by simp_all
  have make: "MakeDate y m dt (ms div 3600000) (ms div 60000 mod 60) (ms div 1000 mod 60)
      (ms mod 1000) = t"
  proof -
    have "int (ms div 3600000) * 3600000 + int (ms div 60000 mod 60) * 60000
        + int (ms div 1000 mod 60) * 1000 + int (ms mod 1000)
      = int ((ms div 3600000) * 3600000 + (ms div 60000 mod 60) * 60000
          + (ms div 1000 mod 60) * 1000 + ms mod 1000)"
      by simp
    also have "\<dots> = int ms" by (simp only: time_fields)
    finally have "int (ms div 3600000) * 3600000 + int (ms div 60000 mod 60) * 60000
        + int (ms div 1000 mod 60) * 1000 + int (ms mod 1000) = int ms" .
    moreover have "DayFromYear y + MonthStart (InLeapYear y) m + int dt - 1 = d"
      using dt(1) by (simp add: w_def)
    ultimately show ?thesis
      unfolding MakeDate_def tdm(1) by simp
  qed
  have yr: "- 1000000 < y" "y < 1000000"
    using YearFromDay_range [OF d] by (simp_all add: y_def)
  have parse: "parse_fields sg ys tail = Some (MakeDate (sg * int n) m dt (ms div 3600000)
      (ms div 60000 mod 60) (ms div 1000 mod 60) (ms mod 1000))"
    if "read_digits 0 ys = Some n" for sg ys n
    unfolding tail_def using that mt(1) dt(2) fields by (rule parse_fields_tail)
  have "(if length (toISOString t) = 24
           then parse_fields 1 (take 4 (toISOString t)) (drop 4 (toISOString t))
         else if length (toISOString t) = 27 \<and> toISOString t ! 0 = 43
           then parse_fields 1 (take 6 (drop 1 (toISOString t))) (drop 7 (toISOString t))
         else if length (toISOString t) = 27 \<and> toISOString t ! 0 = 45
           then parse_fields (- 1) (take 6 (drop 1 (toISOString t))) (drop 7 (toISOString t))
         else None) = Some t"
  proof (cases "0 \<le> y \<and> y \<le> 9999")
    case True
    then have ys: "year_string y = pad 4 (nat y)" by (simp add: year_string_def)
    from True have "nat y < 10000" by linarith
    then have "read_digits 0 (pad 4 (nat y)) = Some (nat y)"
      by (simp add: read_digits_pad)
    from parse [OF this, of 1] True make show ?thesis
      by (simp add: iso ys length_pad len_tail)
  next
    case False
    show ?thesis
    proof (cases "y < 0")
      case True
      then have ys: "year_string y = js ''-'' @ pad 6 (nat \<bar>y\<bar>)" by (simp add: year_string_def)
      from yr have "nat \<bar>y\<bar> < 1000000" by linarith
      then have "read_digits 0 (pad 6 (nat \<bar>y\<bar>)) = Some (nat \<bar>y\<bar>)"
        by (simp add: read_digits_pad)
      from parse [OF this, of "- 1"] True make show ?thesis
        by (simp add: iso ys length_pad len_tail js_def)
    next
      case False
      with \<open>\<not> (0 \<le> y \<and> y \<le> 9999)\<close> have pos: "9999 < y" by simp
      then have ys: "year_string y = js ''+'' @ pad 6 (nat \<bar>y\<bar>)" by (simp add: year_string_def)
      from yr have "nat \<bar>y\<bar> < 1000000" by linarith
      then have "read_digits 0 (pad 6 (nat \<bar>y\<bar>)) = Some (nat \<bar>y\<bar>)"
        by (simp add: read_digits_pad)
      from parse [OF this, of 1] pos make show ?thesis
        by (simp add: iso ys length_pad len_tail js_def)
    qed
  qed
  then show ?thesis
    using t by (simp add: Date_parse_def)
qed

section \<open>The round trip through \<open>localStorage\<close>\<close>

lemma js_keys_distinct:
  "js ''id'' \<noteq> js ''createdAt''" "js ''text'' \<noteq> js ''createdAt''"
  "js ''completed'' \<noteq> js ''createdAt''" "js ''createdAt'' \<noteq> js ''id''"
  "js ''createdAt'' \<noteq> js ''text''" "js ''createdAt'' \<noteq> js ''completed''"
  "js ''id'' \<noteq> js ''text''" "js ''id'' \<noteq> js ''completed''"
  "js ''text'' \<noteq> js ''id''" "js ''text'' \<noteq> js ''completed''"
  "js ''completed'' \<noteq> js ''id''" "js ''completed'' \<noteq> js ''text''"
  by (simp_all add: js_def)

lemma revive_todo_toJSON:
  "revive (todo_toJSON t) =
     Inr [(js ''id'', Value (JStr (id' t))), (js ''text'', Value (JStr (text' t))),
          (js ''completed'', Value (JBool (completed t))),
          (js ''createdAt'', New_Date (Some (Date_toJSON (createdAt t))))]"
  by (cases "createdAt t")
    (simp_all add: revive_def get_createdAt_def todo_toJSON_def spread_def js_keys_distinct
      new_Date_throws_def Date_toJSON_def)

lemma new_Date_toJSON:
  "valid_date d \<Longrightarrow> new_Date (Some (Date_toJSON d)) = Some d"
  by (cases d) (simp_all add: valid_date_def Date_toJSON_def new_Date_def Date_parse_toISOString)

lemma as_todo_revived:
  assumes "valid_date (createdAt t)"
  shows "as_todo [(js ''id'', Value (JStr (id' t))), (js ''text'', Value (JStr (text' t))),
          (js ''completed'', Value (JBool (completed t))),
          (js ''createdAt'', New_Date (Some (Date_toJSON (createdAt t))))] = Some t"
  by (simp add: new_Date_toJSON [OF assms])

lemma reload_list:
  assumes "\<forall>t\<in>set ts. valid_date (createdAt t)"
  shows "\<exists>objs. map_throwing revive (map todo_toJSON ts) = Inr objs
           \<and> those (map as_todo objs) = Some ts"
  using assms
proof (induction ts)
  case Nil
  then show ?case by simp
next
  case (Cons t ts)
  then obtain objs where objs: "map_throwing revive (map todo_toJSON ts) = Inr objs"
    "those (map as_todo objs) = Some ts"
    by auto
  from Cons.prems have "valid_date (createdAt t)" by simp
  from as_todo_revived [OF this] objs show ?case
    by (simp add: revive_todo_toJSON del: as_todo.simps)
qed

lemma item_saved:
  "\<not> setItem_throws b \<Longrightarrow> item (saveToLocalStorage m b) = Some (JSON_stringify (todos m))"
  "getItem_throws (saveToLocalStorage m b) = getItem_throws b"
  by (simp_all add: saveToLocalStorage_def setItem_def Let_def)

lemma new_TodoManager_of_record:
  assumes "\<forall>t\<in>set ts. valid_date (createdAt t)"
    and "item b = Some (JSON_stringify ts)" and "\<not> getItem_throws b"
  shows "new_TodoManager b = (Typed \<lparr>todos = ts, currentFilter = All\<rparr>, b)"
proof -
  from reload_list [OF assms(1)] obtain objs where
    objs: "map_throwing revive (map todo_toJSON ts) = Inr objs" "those (map as_todo objs) = Some ts"
    by blast
  have "load_try b = Inr (Some objs)"
    using assms(2,3) objs(1)
    by (simp add: load_try_def getItem_def JSON_stringify_def JSON_parse_def parsed_map_def)
  then show ?thesis
    using objs(2) by (simp add: new_TodoManager_def loadFromLocalStorage_def)
qed

lemma toggle_first_valid:
  "\<forall>t\<in>set ts. valid_date (createdAt t) \<Longrightarrow> \<forall>t\<in>set (toggle_first i ts). valid_date (createdAt t)"
  by (induction ts) auto

lemma step_keeps_valid_dates:
  assumes "\<forall>t\<in>set (todos (fst s)). valid_date (createdAt t)"
    and "\<And>a txt. c = Create a txt \<Longrightarrow> \<bar>new_Date_now a\<bar> \<le> 8640000000000000"
  shows "\<forall>t\<in>set (todos (fst (step s c))). valid_date (createdAt t)"
proof (cases s)
  case (Pair m b)
  with assms show ?thesis
    by (cases c)
      (auto simp: addTodo_def deleteTodo_def toggleTodo_def clearCompleted_def clearAll_def
        setFilter_def Let_def valid_date_def
        dest: toggle_first_valid [rule_format, rotated] split: option.splits)
qed

lemma run_keeps_valid_dates:
  assumes "\<forall>t\<in>set (todos (fst s)). valid_date (createdAt t)"
    and "\<forall>a txt. Create a txt \<in> set cs \<longrightarrow> \<bar>new_Date_now a\<bar> \<le> 8640000000000000"
  shows "\<forall>t\<in>set (todos (fst (run cs s))). valid_date (createdAt t)"
  using assms unfolding run_def
proof (induction cs arbitrary: s)
  case Nil
  then show ?case by simp
next
  case (Cons c cs)
  have "\<forall>t\<in>set (todos (fst (step s c))). valid_date (createdAt t)"
    using Cons.prems by (intro step_keeps_valid_dates) auto
  moreover have "\<forall>a txt. Create a txt \<in> set cs \<longrightarrow> \<bar>new_Date_now a\<bar> \<le> 8640000000000000"
    using Cons.prems by auto
  ultimately show ?case using Cons.IH by simp
qed

text \<open>
  Claim C5, amended. Let every task of a state have a valid \<open>createdAt\<close>, as the
  tasks that \<open>addTodo\<close> makes have, and as \<open>run_keeps_valid_dates\<close> shows for every
  state that the operations reach from such a state. When the state is written
  (\<open>setItem\<close> does not throw) and the record can be read, a new \<open>TodoManager\<close> holds
  the same tasks in the same order, each with its id, text, completed flag and a
  \<open>createdAt\<close> that is a \<open>Date\<close> with the same time value in milliseconds.
\<close>

theorem written_state_is_reloaded:
  assumes "\<forall>t\<in>set (todos m). valid_date (createdAt t)"
    and "\<not> setItem_throws b" and "\<not> getItem_throws b"
  shows "new_TodoManager (saveToLocalStorage m b)
           = (Typed \<lparr>todos = todos m, currentFilter = All\<rparr>, saveToLocalStorage m b)"
  using assms by (intro new_TodoManager_of_record) (simp_all add: item_saved)

theorem written_state_is_reloaded_witness:
  "list_all (\<lambda>t. valid_date (createdAt t)) (todos example_manager) \<and>
   \<not> setItem_throws empty_browser \<and> \<not> getItem_throws empty_browser \<and>
   new_TodoManager (saveToLocalStorage example_manager empty_browser)
     = (Typed \<lparr>todos = todos example_manager, currentFilter = All\<rparr>,
        saveToLocalStorage example_manager empty_browser)"
proof -
  have v: "\<forall>t\<in>set (todos example_manager). valid_date (createdAt t)"
    by (simp add: example_manager_def example_todo_def valid_date_def)
  have s: "\<not> setItem_throws empty_browser" and g: "\<not> getItem_throws empty_browser"
    by (simp_all add: empty_browser_def)
  from v s g written_state_is_reloaded [OF v s g] show ?thesis
    by (simp add: list_all_iff)
qed

text \<open>
  Claim C5 as stated fails for a task whose \<open>createdAt\<close> is an invalid date. A record
  in which a task has no \<open>createdAt\<close> loads as such a task; \<open>JSON.stringify\<close> writes
  its date as \<open>null\<close>, and the next \<open>new Date(null)\<close> is the epoch.
\<close>

theorem invalid_date_is_not_reloaded:
  "fst (new_TodoManager (empty_browser\<lparr>item := Some undated_record\<rparr>)) = Typed invalid_date_manager
   \<and> fst (new_TodoManager (saveToLocalStorage invalid_date_manager empty_browser))
       = Typed \<lparr>todos = [\<lparr>id' = js ''a'', text' = js ''Buy milk'', completed = False,
                           createdAt = Date 0\<rparr>],
                 currentFilter = All\<rparr>
   \<and> fst (new_TodoManager (saveToLocalStorage invalid_date_manager empty_browser))
       \<noteq> Typed \<lparr>todos = todos invalid_date_manager, currentFilter = All\<rparr>"
proof -
  have 1: "fst (new_TodoManager (empty_browser\<lparr>item := Some undated_record\<rparr>))
      = Typed invalid_date_manager"
    by (simp add: new_TodoManager_def loadFromLocalStorage_def load_try_def getItem_def
        empty_browser_def undated_record_def JSON_parse_def parsed_map_def revive_def
        get_createdAt_def spread_def js_keys_distinct new_Date_def new_Date_throws_def
        invalid_date_manager_def)
  have 2: "fst (new_TodoManager (saveToLocalStorage invalid_date_manager empty_browser))
       = Typed \<lparr>todos = [\<lparr>id' = js ''a'', text' = js ''Buy milk'', completed = False,
                           createdAt = Date 0\<rparr>],
                 currentFilter = All\<rparr>"
    by (simp add: new_TodoManager_def loadFromLocalStorage_def load_try_def getItem_def
        saveToLocalStorage_def setItem_def Let_def JSON_stringify_def
        empty_browser_def JSON_parse_def parsed_map_def revive_todo_toJSON
        Date_toJSON_def new_Date_def invalid_date_manager_def)
  from 1 2 show ?thesis by (simp add: invalid_date_manager_def)
qed

section \<open>Records that the program did not write\<close>

lemma revive_throws_iff:
  "(\<exists>e. revive x = Inl e) \<longleftrightarrow> x = JNull \<or> unconvertible_createdAt x"
  by (cases x)
    (auto simp: revive_def get_createdAt_def unconvertible_createdAt_def new_Date_throws_def
      split: option.splits)

lemma revive_throws_TypeError: "revive x = Inl e \<Longrightarrow> e = TypeError"
  by (cases x) (auto simp: revive_def get_createdAt_def split: if_splits)

lemma map_throwing_revive_throws:
  "\<exists>x\<in>set xs. x = JNull \<or> unconvertible_createdAt x \<Longrightarrow>
   map_throwing revive xs = Inl TypeError"
proof (induction xs)
  case Nil
  then show ?case by simp
next
  case (Cons x xs)
  show ?case
  proof (cases "x = JNull \<or> unconvertible_createdAt x")
    case True
    with revive_throws_iff [of x] obtain e where e: "revive x = Inl e" by blast
    with revive_throws_TypeError [OF e] show ?thesis by simp
  next
    case False
    with revive_throws_iff [of x] obtain obj where obj: "revive x = Inr obj"
      by (cases "revive x") auto
    from False Cons.prems have "\<exists>x\<in>set xs. x = JNull \<or> unconvertible_createdAt x" by auto
    from Cons.IH [OF this] obj show ?thesis by simp
  qed
qed

lemma map_throwing_revive_returns:
  "\<forall>x\<in>set xs. x \<noteq> JNull \<and> \<not> unconvertible_createdAt x \<Longrightarrow>
   \<exists>objs. map_throwing revive xs = Inr objs \<and> length objs = length xs"
proof (induction xs)
  case Nil
  then show ?case by simp
next
  case (Cons x xs)
  then obtain objs where "map_throwing revive xs = Inr objs" "length objs = length xs"
    by auto
  moreover from Cons.prems have "\<not> (x = JNull \<or> unconvertible_createdAt x)" by auto
  with revive_throws_iff [of x] obtain obj where "revive x = Inr obj"
    by (cases "revive x") auto
  ultimately show ?case by simp
qed

lemma those_length: "those ys = Some ts \<Longrightarrow> length ts = length ys"
  by (induction ys arbitrary: ts) (auto split: option.splits)

lemma load_try_throws:
  assumes "getItem_throws b \<or> item b = Some Invalid_text
     \<or> (\<exists>v. item b = Some (JSON_text v)
           \<and> (\<forall>xs. v = JArr xs \<longrightarrow> (\<exists>x\<in>set xs. x = JNull \<or> unconvertible_createdAt x)))"
  shows "\<exists>e. load_try b = Inl e"
proof (cases "getItem_throws b")
  case True
  then show ?thesis by (simp add: load_try_def getItem_def)
next
  case False
  with assms consider "item b = Some Invalid_text"
    | v where "item b = Some (JSON_text v)"
        "\<forall>xs. v = JArr xs \<longrightarrow> (\<exists>x\<in>set xs. x = JNull \<or> unconvertible_createdAt x)"
    by blast
  then show ?thesis
  proof cases
    case 1
    with False show ?thesis by (simp add: load_try_def getItem_def JSON_parse_def)
  next
    case 2
    then show ?thesis using False
      by (cases v)
        (simp_all add: load_try_def getItem_def JSON_parse_def parsed_map_def
          map_throwing_revive_throws)
  qed
qed

lemma new_TodoManager_caught:
  "load_try b = Inl e \<Longrightarrow>
   new_TodoManager b
     = (Typed \<lparr>todos = [], currentFilter = All\<rparr>, b\<lparr>console_error := console_error b @ [e]\<rparr>)"
  by (simp add: new_TodoManager_def loadFromLocalStorage_def)

text \<open>
  Claim C6, amended. A new \<open>TodoManager\<close> starts with no task when \<open>getItem\<close> throws,
  when the record is absent or the empty string, when it is not a JSON text, and
  when it is a JSON text whose value is not an array or is an array with an element
  that is \<open>null\<close> or whose \<open>createdAt\<close> is an object or array that \<open>new Date\<close> cannot
  convert to a primitive. Every exception of the \<open>try\<close> block is caught and goes to
  \<open>console.error\<close>; none reaches the caller. For an array without such an element the
  new manager has one entry for each element, whatever else the element is.
\<close>

theorem new_TodoManager_starts_empty:
  "(getItem_throws b \<or> item b = None \<or> item b = Some Empty_text \<or> item b = Some Invalid_text
      \<or> (\<exists>v. item b = Some (JSON_text v)
            \<and> (\<forall>xs. v = JArr xs \<longrightarrow> (\<exists>x\<in>set xs. x = JNull \<or> unconvertible_createdAt x)))
    \<longrightarrow> fst (new_TodoManager b) = Typed \<lparr>todos = [], currentFilter = All\<rparr>
        \<and> getTodos (Some All) \<lparr>todos = [], currentFilter = All\<rparr> = [])
   \<and> (\<forall>e. load_try b = Inl e \<longrightarrow>
         new_TodoManager b
           = (Typed \<lparr>todos = [], currentFilter = All\<rparr>,
              b\<lparr>console_error := console_error b @ [e]\<rparr>))
   \<and> (\<forall>xs. \<not> getItem_throws b \<and> item b = Some (JSON_text (JArr xs))
           \<and> (\<forall>x\<in>set xs. x \<noteq> JNull \<and> \<not> unconvertible_createdAt x)
         \<longrightarrow> all_length (fst (new_TodoManager b)) = length xs)"
proof (intro conjI impI allI)
  assume a: "getItem_throws b \<or> item b = None \<or> item b = Some Empty_text
      \<or> item b = Some Invalid_text
      \<or> (\<exists>v. item b = Some (JSON_text v)
            \<and> (\<forall>xs. v = JArr xs \<longrightarrow> (\<exists>x\<in>set xs. x = JNull \<or> unconvertible_createdAt x)))"
  show "fst (new_TodoManager b) = Typed \<lparr>todos = [], currentFilter = All\<rparr>"
  proof (cases "\<not> getItem_throws b \<and> (item b = None \<or> item b = Some Empty_text)")
    case True
    then show ?thesis
      by (auto simp: new_TodoManager_def loadFromLocalStorage_def load_try_def getItem_def)
  next
    case False
    with a have "getItem_throws b \<or> item b = Some Invalid_text
       \<or> (\<exists>v. item b = Some (JSON_text v)
            \<and> (\<forall>xs. v = JArr xs \<longrightarrow> (\<exists>x\<in>set xs. x = JNull \<or> unconvertible_createdAt x)))"
      by blast
    from load_try_throws [OF this] obtain e where "load_try b = Inl e" ..
    from new_TodoManager_caught [OF this] show ?thesis by simp
  qed
next
  show "getTodos (Some All) \<lparr>todos = [], currentFilter = All\<rparr> = []"
    by (simp add: getTodos_def)
next
  fix e assume "load_try b = Inl e"
  then show "new_TodoManager b
     = (Typed \<lparr>todos = [], currentFilter = All\<rparr>, b\<lparr>console_error := console_error b @ [e]\<rparr>)"
    by (rule new_TodoManager_caught)
next
  fix xs
  assume a: "\<not> getItem_throws b \<and> item b = Some (JSON_text (JArr xs))
      \<and> (\<forall>x\<in>set xs. x \<noteq> JNull \<and> \<not> unconvertible_createdAt x)"
  then obtain objs where objs: "map_throwing revive xs = Inr objs" "length objs = length xs"
    using map_throwing_revive_returns by blast
  with a have "load_try b = Inr (Some objs)"
    by (simp add: load_try_def getItem_def JSON_parse_def parsed_map_def)
  then show "all_length (fst (new_TodoManager b)) = length xs"
    using objs(2)
    by (auto simp: new_TodoManager_def loadFromLocalStorage_def all_length_def getTodos_def
        dest: those_length split: option.splits)
qed

theorem new_TodoManager_starts_empty_witness:
  "fst (new_TodoManager (empty_browser\<lparr>item := Some Invalid_text\<rparr>))
     = Typed \<lparr>todos = [], currentFilter = All\<rparr>
   \<and> new_TodoManager (empty_browser\<lparr>item := Some Invalid_text\<rparr>)
     = (Typed \<lparr>todos = [], currentFilter = All\<rparr>,
        empty_browser\<lparr>item := Some Invalid_text, console_error := [SyntaxError]\<rparr>)
   \<and> new_TodoManager (empty_browser\<lparr>item := Some unconvertible_record\<rparr>)
     = (Typed \<lparr>todos = [], currentFilter = All\<rparr>,
        empty_browser\<lparr>item := Some unconvertible_record, console_error := [TypeError]\<rparr>)
   \<and> all_length (fst (new_TodoManager (empty_browser\<lparr>item := Some untitled_record\<rparr>))) = 1"
proof -
  have e: "load_try (empty_browser\<lparr>item := Some Invalid_text\<rparr>) = Inl SyntaxError"
    by (simp add: load_try_def getItem_def empty_browser_def JSON_parse_def)
  have u: "load_try (empty_browser\<lparr>item := Some unconvertible_record\<rparr>) = Inl TypeError"
    by (simp add: load_try_def getItem_def empty_browser_def JSON_parse_def parsed_map_def
        unconvertible_record_def revive_def get_createdAt_def new_Date_throws_def)
  have n: "\<forall>x\<in>set [JObj [(js ''text'', JStr (js ''Buy milk''))]].
      x \<noteq> JNull \<and> \<not> unconvertible_createdAt x"
    by (simp add: unconvertible_createdAt_def js_keys_distinct)
  from new_TodoManager_starts_empty [of "empty_browser\<lparr>item := Some Invalid_text\<rparr>"] e
  have 1: "fst (new_TodoManager (empty_browser\<lparr>item := Some Invalid_text\<rparr>))
     = Typed \<lparr>todos = [], currentFilter = All\<rparr>"
    and 2: "new_TodoManager (empty_browser\<lparr>item := Some Invalid_text\<rparr>)
     = (Typed \<lparr>todos = [], currentFilter = All\<rparr>,
        empty_browser\<lparr>item := Some Invalid_text, console_error := [SyntaxError]\<rparr>)"
    by (simp_all add: empty_browser_def)
  from new_TodoManager_starts_empty [of "empty_browser\<lparr>item := Some unconvertible_record\<rparr>"] u
  have 3: "new_TodoManager (empty_browser\<lparr>item := Some unconvertible_record\<rparr>)
     = (Typed \<lparr>todos = [], currentFilter = All\<rparr>,
        empty_browser\<lparr>item := Some unconvertible_record, console_error := [TypeError]\<rparr>)"
    by (simp add: empty_browser_def)
  from new_TodoManager_starts_empty [of "empty_browser\<lparr>item := Some untitled_record\<rparr>"] n
  have 4: "all_length (fst (new_TodoManager (empty_browser\<lparr>item := Some untitled_record\<rparr>))) = 1"
    by (simp add: empty_browser_def untitled_record_def)
  from 1 2 3 4 show ?thesis by blast
qed

text \<open>
  Claim C6 as stated fails for a record that is a JSON array of values that are not
  tasks: nothing checks their shape, and the store does not start empty.
\<close>

theorem record_of_another_shape_is_loaded:
  "fst (new_TodoManager (empty_browser\<lparr>item := Some untitled_record\<rparr>))
     = Untyped [[(js ''text'', Value (JStr (js ''Buy milk''))), (js ''createdAt'', New_Date None)]]
   \<and> all_length (fst (new_TodoManager (empty_browser\<lparr>item := Some untitled_record\<rparr>))) = 1"
  by (simp add: new_TodoManager_def loadFromLocalStorage_def load_try_def getItem_def
      empty_browser_def untitled_record_def JSON_parse_def parsed_map_def revive_def
      get_createdAt_def spread_def js_keys_distinct all_length_def new_Date_throws_def)

end
